theory Spec2Isabelle
  imports Complex_Main
begin

section \<open>Beam analysis tool: the script \<open>app.py\<close> as HOL functions\<close>

text \<open>
  The script reads its parameters from sidebar widgets, builds the sample positions,
  the shear and moment sequences, integrates twice for the deflection and reports extrema.
  Python floats and numpy float64 arrays are modelled as \<open>real\<close> and \<open>real list\<close>:
  every statement below is about exact arithmetic, rounding is not part of the model.
  Where Python raises, the model returns \<open>Inl\<close> of the exception; where numpy would
  produce \<open>inf\<close> or \<open>nan\<close> (a division by zero on an array or a float64 scalar,
  which only warns), the model returns \<open>Inl NotFinite\<close>, since no real number stands
  for that value.
\<close>

datatype error = ZeroDivisionError | TypeError | ValueError | IndexError | NotFinite

subsection \<open>Sidebar inputs (lines 18 to 45)\<close>

text \<open>
  The second point load exists only when the checkbox \<open>add_second\<close> is ticked; it is
  the optional pair \<open>(P2_kn, a2)\<close>. The load type is the selectbox's choice.
\<close>

datatype sidebar_load =
    SB_Point_Load real real "(real \<times> real) option"
  | SB_UDL real

record sidebar =
  sb_L :: real
  sb_E_gpa :: real
  sb_I :: real
  sb_load :: sidebar_load
  sb_npts :: nat


text \<open>The script's variables after the sidebar block: \<open>P\<close>, \<open>a\<close>, \<open>P2\<close>, \<open>a2\<close>
  (which is \<open>None\<close> without a second load) or \<open>w\<close>, in SI units.\<close>

datatype load_case =
    Point_Load real real real "real option"
  | UDL real

record config =
  cfg_L :: real
  cfg_E :: real
  cfg_I :: real
  cfg_load :: load_case
  cfg_npts :: nat

definition read_sidebar :: "sidebar \<Rightarrow> config" where
  "read_sidebar s =
     \<lparr> cfg_L = sb_L s,
       cfg_E = sb_E_gpa s * 10 ^ 9,
       cfg_I = sb_I s,
       cfg_load =
         (case sb_load s of
            SB_Point_Load P_kn a snd_load \<Rightarrow>
              (case snd_load of
                 Some (P2_kn, a2) \<Rightarrow> Point_Load (P_kn * 1000) a (P2_kn * 1000) (Some a2)
               | None \<Rightarrow> Point_Load (P_kn * 1000) a 0 None)
          | SB_UDL w_knm \<Rightarrow> UDL (w_knm * 1000)),
       cfg_npts = sb_npts s \<rparr>"

subsection \<open>The numpy and scipy operations the script calls\<close>

text \<open>\<open>np.linspace(start, stop, num)\<close>: \<open>arange(num) * step + start\<close> with
  \<open>step = (stop - start) / (num - 1)\<close>, the last sample then set to \<open>stop\<close>; a single
  sample is \<open>start\<close>.\<close>

definition linspace :: "real \<Rightarrow> real \<Rightarrow> nat \<Rightarrow> real list" where
  "linspace start stop num =
     (if num > 1 then
        (let step = (stop - start) / (real num - 1)
         in (map (\<lambda>i. real i * step + start) [0..<num])[num - 1 := stop])
      else map (\<lambda>i. start) [0..<num])"

fun np_diff :: "real list \<Rightarrow> real list" where
  "np_diff (u # v # xs) = (v - u) # np_diff (v # xs)"
| "np_diff xs = []"

fun cumsum_from :: "real \<Rightarrow> real list \<Rightarrow> real list" where
  "cumsum_from s [] = []"
| "cumsum_from s (v # vs) = (s + v) # cumsum_from (s + v) vs"

definition np_cumsum :: "real list \<Rightarrow> real list" where
  "np_cumsum vs = cumsum_from 0 vs"

text \<open>\<open>cumtrapz(y, x, initial=0.0)\<close>: \<open>d = diff(x)\<close>, a \<open>ValueError\<close> unless \<open>d\<close> has
  one element less than \<open>y\<close>, then \<open>cumsum(d * (y[1:] + y[:-1]) / 2.0)\<close> with the
  initial value put in front.\<close>

definition cumtrapz :: "real list \<Rightarrow> real list \<Rightarrow> error + real list" where
  "cumtrapz ys xs =
     (let d = np_diff xs in
      if int (length d) \<noteq> int (length ys) - 1 then Inl ValueError
      else Inr (0 # np_cumsum
                  (map2 (\<lambda>dk s. dk * s / 2) d (map2 (+) (tl ys) (butlast ys)))))"

text \<open>\<open>np.where(x < a, V, W)\<close> on arrays of one length.\<close>

definition np_where_lt :: "real list \<Rightarrow> real \<Rightarrow> real list \<Rightarrow> real list \<Rightarrow> real list" where
  "np_where_lt xs a V W = map (\<lambda>(x, v, w). if x < a then v else w) (zip xs (zip V W))"

text \<open>\<open>np.min\<close>, \<open>np.max\<close> and \<open>np.argmax\<close> scan the array from its first element and
  raise \<open>ValueError\<close> on an empty one; \<open>argmax\<close> keeps the first index of the maximum.\<close>

definition np_min :: "real list \<Rightarrow> error + real" where
  "np_min ys = (case ys of [] \<Rightarrow> Inl ValueError | v # vs \<Rightarrow> Inr (fold min vs v))"

definition np_max :: "real list \<Rightarrow> error + real" where
  "np_max ys = (case ys of [] \<Rightarrow> Inl ValueError | v # vs \<Rightarrow> Inr (fold max vs v))"

fun argmax_from :: "nat \<Rightarrow> nat \<Rightarrow> real \<Rightarrow> real list \<Rightarrow> nat" where
  "argmax_from i best bv [] = best"
| "argmax_from i best bv (v # vs) =
     (if bv < v then argmax_from (Suc i) i v vs else argmax_from (Suc i) best bv vs)"

definition np_argmax :: "real list \<Rightarrow> error + nat" where
  "np_argmax ys = (case ys of [] \<Rightarrow> Inl ValueError | v # vs \<Rightarrow> Inr (argmax_from 1 0 v vs))"

subsection \<open>Reactions (lines 58 to 68 and line 84)\<close>

definition branch_cond :: "real \<Rightarrow> real option \<Rightarrow> bool" where
  "branch_cond P2 a2 \<longleftrightarrow> (P2 \<noteq> 0 \<and> a2 \<noteq> None) \<or> P2 = 0"

text \<open>The branch taken when the condition holds: moments about the left support.
  \<open>P2 * a2\<close> is evaluated only for a non-zero \<open>P2\<close>; on \<open>None\<close> it is a \<open>TypeError\<close>.
  The division of two Python floats raises on a zero divisor.\<close>

definition moment_balance ::
  "real \<Rightarrow> real \<Rightarrow> real \<Rightarrow> real option \<Rightarrow> real \<Rightarrow> error + real \<times> real" where
  "moment_balance P a P2 a2 L =
     (let total_load = P + P2 in
      case (if P2 \<noteq> 0 then (case a2 of None \<Rightarrow> Inl TypeError | Some a2v \<Rightarrow> Inr (P2 * a2v))
            else Inr 0) of
        Inl e \<Rightarrow> Inl e
      | Inr second \<Rightarrow>
          (let moment_about_left = P * a + second in
           if L = 0 then Inl ZeroDivisionError
           else (let R2 = moment_about_left / L; R1 = total_load - R2 in Inr (R1, R2))))"

text \<open>The \<open>else\<close> branch: the single-load formula.\<close>

definition single_load_formula :: "real \<Rightarrow> real \<Rightarrow> real \<Rightarrow> error + real \<times> real" where
  "single_load_formula P a L =
     (if L = 0 then Inl ZeroDivisionError
      else (let R1 = P * (L - a) / L; R2 = P - R1 in Inr (R1, R2)))"

definition solve_reactions :: "real \<Rightarrow> load_case \<Rightarrow> error + real \<times> real" where
  "solve_reactions L lc =
     (case lc of
        Point_Load P a P2 a2 \<Rightarrow>
          (if branch_cond P2 a2 then moment_balance P a P2 a2 L
           else single_load_formula P a L)
      | UDL w \<Rightarrow> (let R = w * L / 2 in Inr (R, R)))"

subsection \<open>Shear and moment (lines 70 to 86)\<close>

text \<open>Point loads: \<open>V\<close> starts as \<open>R1\<close> at every sample; each \<open>np.where\<close> keeps the
  value where \<open>x < a\<close> and subtracts the load elsewhere. With a non-zero \<open>P2\<close> the
  comparison \<open>x < a2\<close> needs a number: on \<open>None\<close> it is a \<open>TypeError\<close>.\<close>

definition shear_point ::
  "real \<Rightarrow> real \<Rightarrow> real \<Rightarrow> real option \<Rightarrow> real \<Rightarrow> real list \<Rightarrow> error + real list" where
  "shear_point P a P2 a2 R1 xs =
     (let V0 = map (\<lambda>x. 0 + R1) xs in
      if P2 \<noteq> 0 then
        (let V1 = np_where_lt xs a V0 (map (\<lambda>v. v - P) V0) in
         case a2 of
           None \<Rightarrow> Inl TypeError
         | Some a2v \<Rightarrow> Inr (np_where_lt xs a2v V1 (map (\<lambda>v. v - P2) V1)))
      else Inr (np_where_lt xs a V0 (map (\<lambda>v. v - P) V0)))"

definition shear_udl :: "real \<Rightarrow> real \<Rightarrow> real list \<Rightarrow> real list" where
  "shear_udl w R1 xs = map (\<lambda>x. R1 - w * x) xs"

definition build_profile ::
  "load_case \<Rightarrow> real \<Rightarrow> real list \<Rightarrow> error + real list \<times> real list" where
  "build_profile lc R1 xs =
     (case lc of
        Point_Load P a P2 a2 \<Rightarrow>
          (case shear_point P a P2 a2 R1 xs of
             Inl e \<Rightarrow> Inl e
           | Inr V \<Rightarrow> (case cumtrapz V xs of Inl e \<Rightarrow> Inl e | Inr M \<Rightarrow> Inr (V, M)))
      | UDL w \<Rightarrow>
          (let V = shear_udl w R1 xs in
           case cumtrapz V xs of Inl e \<Rightarrow> Inl e | Inr M \<Rightarrow> Inr (V, M)))"

subsection \<open>Deflection (lines 93 to 101)\<close>

definition solve_deflection ::
  "real \<Rightarrow> real \<Rightarrow> real \<Rightarrow> real list \<Rightarrow> real list \<Rightarrow> error + real list" where
  "solve_deflection L E I xs M =
     (if E * I = 0 then Inl NotFinite
      else
        case cumtrapz (map (\<lambda>m. m / (E * I)) M) xs of
          Inl e \<Rightarrow> Inl e
        | Inr slope \<Rightarrow>
            (case cumtrapz slope xs of
               Inl e \<Rightarrow> Inl e
             | Inr y_unnormalized \<Rightarrow>
                 (if y_unnormalized = [] then Inl IndexError
                  else if L = 0 then Inl NotFinite
                  else
                    (let C1 = - last y_unnormalized / L
                     in Inr (map2 (\<lambda>y0 x. y0 + C1 * x) y_unnormalized xs)))))"

subsection \<open>Extrema (lines 104, 105 and 116)\<close>

definition max_deflection :: "real list \<Rightarrow> error + real" where
  "max_deflection y =
     (case np_min y of
        Inl e \<Rightarrow> Inl e
      | Inr lo \<Rightarrow> (if lo < 0 then np_min y else np_max y))"

definition max_deflection_abs :: "real list \<Rightarrow> error + real" where
  "max_deflection_abs y = np_max (map abs y)"

definition imax :: "real list \<Rightarrow> error + nat" where
  "imax y = np_argmax (map abs y)"

subsection \<open>The whole run\<close>

record results =
  res_x :: "real list"
  res_R1 :: real
  res_R2 :: real
  res_V :: "real list"
  res_M :: "real list"
  res_y :: "real list"
  res_max_deflection :: real
  res_max_deflection_abs :: real
  res_imax :: nat

definition analyze :: "config \<Rightarrow> error + results" where
  "analyze c =
     (let xs = linspace 0 (cfg_L c) (cfg_npts c) in
      case solve_reactions (cfg_L c) (cfg_load c) of
        Inl e \<Rightarrow> Inl e
      | Inr (R1, R2) \<Rightarrow>
     (case build_profile (cfg_load c) R1 xs of
        Inl e \<Rightarrow> Inl e
      | Inr (V, M) \<Rightarrow>
     (case solve_deflection (cfg_L c) (cfg_E c) (cfg_I c) xs M of
        Inl e \<Rightarrow> Inl e
      | Inr y \<Rightarrow>
     (case max_deflection y of
        Inl e \<Rightarrow> Inl e
      | Inr md \<Rightarrow>
     (case max_deflection_abs y of
        Inl e \<Rightarrow> Inl e
      | Inr mda \<Rightarrow>
     (case imax y of
        Inl e \<Rightarrow> Inl e
      | Inr im \<Rightarrow>
          Inr \<lparr> res_x = xs, res_R1 = R1, res_R2 = R2, res_V = V, res_M = M, res_y = y,
                res_max_deflection = md, res_max_deflection_abs = mda,
                res_imax = im \<rparr>))))))"

subsection \<open>Validity of a configuration, in the specification's words\<close>

text \<open>The specification rejects a configuration when \<open>L \<le> 0\<close>, \<open>E \<le> 0\<close>, \<open>I \<le> 0\<close>,
  \<open>N < 2\<close>, a load magnitude is negative or a point-load position lies outside
  \<open>[0, L]\<close>. Without a second load there is no second position to check.\<close>

fun load_invalid :: "real \<Rightarrow> load_case \<Rightarrow> bool" where
  "load_invalid L (Point_Load P a P2 a2) \<longleftrightarrow>
     P < 0 \<or> P2 < 0 \<or> a < 0 \<or> L < a \<or>
     (case a2 of None \<Rightarrow> False | Some a2v \<Rightarrow> a2v < 0 \<or> L < a2v)"
| "load_invalid L (UDL w) \<longleftrightarrow> w < 0"

definition InvalidParameter :: "config \<Rightarrow> bool" where
  "InvalidParameter c \<longleftrightarrow>
     cfg_L c \<le> 0 \<or> cfg_E c \<le> 0 \<or> cfg_I c \<le> 0 \<or> cfg_npts c < 2 \<or>
     load_invalid (cfg_L c) (cfg_load c)"

text \<open>What the sidebar block guarantees besides the bounds: \<open>a2\<close> is \<open>None\<close> only
  together with \<open>P2 = 0.0\<close> (lines 36 to 38).\<close>

fun second_load_ok :: "load_case \<Rightarrow> bool" where
  "second_load_ok (Point_Load P a P2 a2) \<longleftrightarrow> a2 \<noteq> None \<or> P2 = 0"
| "second_load_ok (UDL w) \<longleftrightarrow> True"

definition valid_run :: "config \<Rightarrow> bool" where
  "valid_run c \<longleftrightarrow> \<not> InvalidParameter c \<and> second_load_ok (cfg_load c)"

text \<open>The point loads of a configuration as (magnitude, position) pairs, and the sum of
  the loads applied at or left of a position: the specification's description of the
  shear step function.\<close>

fun point_loads :: "load_case \<Rightarrow> (real \<times> real) list" where
  "point_loads (Point_Load P a P2 a2) =
     (case a2 of None \<Rightarrow> [(P, a)] | Some a2v \<Rightarrow> [(P, a), (P2, a2v)])"
| "point_loads (UDL w) = []"

definition loads_up_to :: "real \<Rightarrow> (real \<times> real) list \<Rightarrow> real" where
  "loads_up_to x loads = sum_list (map fst (filter (\<lambda>(Pk, ak). ak \<le> x) loads))"

subsection \<open>Configurations of the specification's scenarios\<close>

text \<open>Scenarios A, B and C of the specification (a midspan point load, a distributed
  load, a point load over the left support), on five samples.\<close>

definition scenario_A :: config where
  "scenario_A = \<lparr> cfg_L = 6, cfg_E = 200 * 10 ^ 9, cfg_I = 5 / 10 ^ 5,
       cfg_load = Point_Load 10000 3 0 None, cfg_npts = 5 \<rparr>"

definition scenario_B :: config where
  "scenario_B = \<lparr> cfg_L = 6, cfg_E = 200 * 10 ^ 9, cfg_I = 5 / 10 ^ 5,
       cfg_load = UDL 5000, cfg_npts = 5 \<rparr>"

definition scenario_C :: config where
  "scenario_C = \<lparr> cfg_L = 6, cfg_E = 200 * 10 ^ 9, cfg_I = 5 / 10 ^ 5,
       cfg_load = Point_Load 10000 0 0 None, cfg_npts = 5 \<rparr>"


text \<open>The sidebar with the widgets' default values.\<close>

definition sidebar_default :: sidebar where
  "sidebar_default = \<lparr> sb_L = 6, sb_E_gpa = 200, sb_I = 5 / 10 ^ 5,
       sb_load = SB_Point_Load 10 3 None, sb_npts = 500 \<rparr>"

subsection \<open>Auxiliary notions for the proofs\<close>

text \<open>The summands of the cumulative trapezoidal rule.\<close>

definition trapz_steps :: "real list \<Rightarrow> real list \<Rightarrow> real list" where
  "trapz_steps ys xs =
     map2 (\<lambda>dk s. dk * s / 2) (np_diff xs) (map2 (+) (tl ys) (butlast ys))"

section \<open>Properties of the library operations\<close>

lemma length_linspace: "length (linspace start stop num) = num"
  by (simp add: linspace_def Let_def)

lemma linspace_nth:
  assumes "2 \<le> num" "i < num"
  shows "linspace start stop num ! i = start + real i * ((stop - start) / (real num - 1))"
proof (cases "i = num - 1")
  case True
  with assms have "real i = real num - 1" by (simp add: of_nat_diff)
  with assms True show ?thesis by (simp add: linspace_def Let_def)
next
  case False
  with assms show ?thesis by (simp add: linspace_def Let_def add.commute)
qed

lemma linspace_first: "2 \<le> num \<Longrightarrow> linspace start stop num ! 0 = start"
  using linspace_nth [of num 0 start stop] by simp

lemma linspace_last: "2 \<le> num \<Longrightarrow> linspace start stop num ! (num - 1) = stop"
  by (simp add: linspace_def Let_def)

lemma linspace_nonneg:
  assumes "0 \<le> stop" "i < num"
  shows "0 \<le> linspace 0 stop num ! i"
proof (cases "2 \<le> num")
  case True
  then have "0 \<le> real num - 1" by simp
  with assms True show ?thesis by (simp add: linspace_nth)
next
  case False
  with assms show ?thesis by (simp add: linspace_def)
qed

lemma length_np_diff: "length (np_diff xs) = length xs - 1"
  by (induction xs rule: np_diff.induct) simp_all

lemma np_diff_nth: "Suc k < length xs \<Longrightarrow> np_diff xs ! k = xs ! Suc k - xs ! k"
proof (induction xs arbitrary: k rule: np_diff.induct)
  case (1 u v xs)
  then show ?case by (cases k) simp_all
qed simp_all

lemma length_cumsum_from: "length (cumsum_from s vs) = length vs"
  by (induction vs arbitrary: s) simp_all

lemma cumsum_from_step:
  "k < length vs \<Longrightarrow> (s # cumsum_from s vs) ! Suc k = (s # cumsum_from s vs) ! k + vs ! k"
proof (induction vs arbitrary: s k)
  case Nil
  then show ?case by simp
next
  case (Cons v vs)
  show ?case
  proof (cases k)
    case 0
    then show ?thesis by simp
  next
    case (Suc j)
    with Cons.prems have "j < length vs" by simp
    from Cons.IH [OF this, of "s + v"] Suc show ?thesis by simp
  qed
qed

lemma length_trapz_steps: "length ys = length xs \<Longrightarrow> length (trapz_steps ys xs) = length xs - 1"
  by (simp add: trapz_steps_def length_np_diff)

lemma trapz_steps_nth:
  assumes "length ys = length xs" "Suc k < length xs"
  shows "trapz_steps ys xs ! k = (xs ! Suc k - xs ! k) * (ys ! Suc k + ys ! k) / 2"
  using assms by (simp add: trapz_steps_def length_np_diff np_diff_nth nth_tl nth_butlast)

lemma cumtrapz_Inr:
  assumes "length ys = length xs" "xs \<noteq> []"
  shows "cumtrapz ys xs = Inr (0 # cumsum_from 0 (trapz_steps ys xs))"
proof -
  from assms have "0 < length xs" by simp
  then have "int (length xs - 1) = int (length xs) - 1" by (cases xs) simp_all
  with assms show ?thesis
    by (simp add: cumtrapz_def Let_def length_np_diff np_cumsum_def trapz_steps_def)
qed

lemma cumtrapz_length:
  assumes "length ys = length xs" "xs \<noteq> []" "cumtrapz ys xs = Inr zs"
  shows "length zs = length xs"
proof -
  from assms have "zs = 0 # cumsum_from 0 (trapz_steps ys xs)" by (simp add: cumtrapz_Inr)
  moreover from assms(2) have "Suc (length xs - 1) = length xs" by (cases xs) simp_all
  ultimately show ?thesis using assms(1) by (simp add: length_cumsum_from length_trapz_steps)
qed

lemma cumtrapz_first:
  assumes "length ys = length xs" "xs \<noteq> []" "cumtrapz ys xs = Inr zs"
  shows "zs ! 0 = 0"
  using assms by (auto simp: cumtrapz_Inr)

lemma cumtrapz_step:
  assumes "length ys = length xs" "Suc k < length xs" "cumtrapz ys xs = Inr zs"
  shows "zs ! Suc k = zs ! k + (xs ! Suc k - xs ! k) * (ys ! Suc k + ys ! k) / 2"
proof -
  from assms have ne: "xs \<noteq> []" by auto
  from assms have k: "k < length (trapz_steps ys xs)" by (simp add: length_trapz_steps)
  from assms ne have zs: "zs = 0 # cumsum_from 0 (trapz_steps ys xs)" by (simp add: cumtrapz_Inr)
  show ?thesis
    unfolding zs using cumsum_from_step [OF k, of 0] trapz_steps_nth [OF assms(1,2)] by simp
qed

lemma cumtrapz_zero:
  assumes "length ys = length xs" "cumtrapz ys xs = Inr zs" "\<And>k. k < length xs \<Longrightarrow> ys ! k = 0"
    "i < length xs"
  shows "zs ! i = 0"
  using assms(4)
proof (induction i)
  case 0
  with assms show ?case by (auto simp: cumtrapz_first)
next
  case (Suc k)
  then have "zs ! k = 0" by simp
  with Suc.prems assms(3) [of k] assms(3) [of "Suc k"] cumtrapz_step [OF assms(1) Suc.prems assms(2)]
  show ?case by simp
qed

lemma cumtrapz_affine:
  assumes "length ys = length xs" "cumtrapz ys xs = Inr zs"
    "\<And>k. k < length xs \<Longrightarrow> ys ! k = c - w * xs ! k" "i < length xs"
  shows "zs ! i = c * (xs ! i - xs ! 0) - w * ((xs ! i)\<^sup>2 - (xs ! 0)\<^sup>2) / 2"
  using assms(4)
proof (induction i)
  case 0
  with assms show ?case by (auto simp: cumtrapz_first)
next
  case (Suc k)
  then have IH: "zs ! k = c * (xs ! k - xs ! 0) - w * ((xs ! k)\<^sup>2 - (xs ! 0)\<^sup>2) / 2" by simp
  from Suc.prems have yk: "ys ! k = c - w * xs ! k" and ysk: "ys ! Suc k = c - w * xs ! Suc k"
    using assms(3) by simp_all
  have "zs ! Suc k = zs ! k + (xs ! Suc k - xs ! k) * (ys ! Suc k + ys ! k) / 2"
    by (rule cumtrapz_step [OF assms(1) Suc.prems assms(2)])
  also have "\<dots> = c * (xs ! Suc k - xs ! 0) - w * ((xs ! Suc k)\<^sup>2 - (xs ! 0)\<^sup>2) / 2"
    unfolding IH yk ysk by (simp add: power2_eq_square field_simps)
  finally show ?case .
qed

lemma length_np_where_lt:
  "length V = length xs \<Longrightarrow> length W = length xs \<Longrightarrow> length (np_where_lt xs a V W) = length xs"
  by (simp add: np_where_lt_def)

lemma np_where_lt_nth:
  "length V = length xs \<Longrightarrow> length W = length xs \<Longrightarrow> i < length xs \<Longrightarrow>
   np_where_lt xs a V W ! i = (if xs ! i < a then V ! i else W ! i)"
  by (simp add: np_where_lt_def)

lemma np_min_Min: "ys \<noteq> [] \<Longrightarrow> np_min ys = Inr (Min (set ys))"
proof -
  assume "ys \<noteq> []"
  then obtain v vs where ys: "ys = v # vs" by (cases ys) auto
  show ?thesis unfolding ys using Min.set_eq_fold [of v vs] by (simp add: np_min_def)
qed

lemma np_max_Max: "ys \<noteq> [] \<Longrightarrow> np_max ys = Inr (Max (set ys))"
proof -
  assume "ys \<noteq> []"
  then obtain v vs where ys: "ys = v # vs" by (cases ys) auto
  show ?thesis unfolding ys using Max.set_eq_fold [of v vs] by (simp add: np_max_def)
qed

lemma argmax_from_first:
  assumes "length pre = i" "best < i" "pre ! best = bv"
    "\<forall>j<i. pre ! j \<le> bv" "\<forall>j<best. pre ! j < bv"
  shows "argmax_from i best bv vs < length (pre @ vs) \<and>
         (\<forall>j<length (pre @ vs). (pre @ vs) ! j \<le> (pre @ vs) ! argmax_from i best bv vs) \<and>
         (\<forall>j<argmax_from i best bv vs. (pre @ vs) ! j < (pre @ vs) ! argmax_from i best bv vs)"
  using assms
proof (induction vs arbitrary: pre i best bv)
  case Nil
  then show ?case by auto
next
  case (Cons v vs)
  show ?case
  proof (cases "bv < v")
    case True
    have 1: "length (pre @ [v]) = Suc i" using Cons.prems by simp
    have 2: "i < Suc i" by simp
    have 3: "(pre @ [v]) ! i = v" using Cons.prems(1) by (auto simp: nth_append)
    have 4: "\<forall>j<Suc i. (pre @ [v]) ! j \<le> v"
      using Cons.prems True by (auto simp: nth_append less_Suc_eq intro: less_imp_le order_trans)
    have 5: "\<forall>j<i. (pre @ [v]) ! j < v"
      using Cons.prems True by (auto simp: nth_append intro: le_less_trans)
    from Cons.IH [OF 1 2 3 4 5] True show ?thesis by simp
  next
    case False
    have 1: "length (pre @ [v]) = Suc i" using Cons.prems by simp
    have 2: "best < Suc i" using Cons.prems by simp
    have 3: "(pre @ [v]) ! best = bv" using Cons.prems by (simp add: nth_append)
    have 4: "\<forall>j<Suc i. (pre @ [v]) ! j \<le> bv"
      using Cons.prems False by (auto simp: nth_append less_Suc_eq)
    have 5: "\<forall>j<best. (pre @ [v]) ! j < bv"
      using Cons.prems by (auto simp: nth_append)
    from Cons.IH [OF 1 2 3 4 5] False show ?thesis by simp
  qed
qed

lemma np_argmax_first:
  assumes "ys \<noteq> []"
  shows "\<exists>k. np_argmax ys = Inr k \<and> k < length ys \<and> ys ! k = Max (set ys) \<and>
             (\<forall>j<k. ys ! j < ys ! k)"
proof -
  from assms obtain v vs where ys: "ys = v # vs" by (cases ys) auto
  let ?k = "argmax_from 1 0 v vs"
  have *: "?k < length ([v] @ vs) \<and>
         (\<forall>j<length ([v] @ vs). ([v] @ vs) ! j \<le> ([v] @ vs) ! ?k) \<and>
         (\<forall>j<?k. ([v] @ vs) ! j < ([v] @ vs) ! ?k)"
    by (rule argmax_from_first) simp_all
  then have k: "?k < length ys" and le: "\<forall>j<length ys. ys ! j \<le> ys ! ?k"
    and lt: "\<forall>j<?k. ys ! j < ys ! ?k"
    by (simp_all add: ys)
  have "Max (set ys) = ys ! ?k"
  proof (rule Max_eqI)
    show "finite (set ys)" by simp
    show "ys ! ?k \<in> set ys" using k by simp
    fix z assume "z \<in> set ys"
    then obtain j where "j < length ys" "ys ! j = z" by (auto simp: in_set_conv_nth)
    with le show "z \<le> ys ! ?k" by auto
  qed
  with k lt show ?thesis by (simp add: np_argmax_def ys)
qed

lemma shear_point_Inr:
  assumes "a2 \<noteq> None \<or> P2 = 0"
  shows "\<exists>V. shear_point P a P2 a2 R1 xs = Inr V \<and> length V = length xs \<and>
     (\<forall>i<length xs. V ! i = R1 - loads_up_to (xs ! i) (point_loads (Point_Load P a P2 a2)))"
proof (cases a2)
  case None
  with assms have "P2 = 0" by simp
  with None show ?thesis
    by (simp add: shear_point_def Let_def np_where_lt_nth length_np_where_lt loads_up_to_def not_less)
next
  case (Some a2v)
  then show ?thesis
    by (simp add: shear_point_def Let_def np_where_lt_nth length_np_where_lt loads_up_to_def not_less)
qed

section \<open>The stages of a run\<close>

lemma solve_reactions_point:
  assumes "L \<noteq> 0" "a2 \<noteq> None \<or> P2 = 0"
  shows "solve_reactions L (Point_Load P a P2 a2) =
         Inr (P + P2 - (P * a + P2 * (case a2 of None \<Rightarrow> 0 | Some a2v \<Rightarrow> a2v)) / L,
              (P * a + P2 * (case a2 of None \<Rightarrow> 0 | Some a2v \<Rightarrow> a2v)) / L)"
  using assms
  by (cases a2) (auto simp: solve_reactions_def branch_cond_def moment_balance_def Let_def)

lemma solve_reactions_udl: "solve_reactions L (UDL w) = Inr (w * L / 2, w * L / 2)"
  by (simp add: solve_reactions_def Let_def)

lemma solve_reactions_Inr:
  assumes "L \<noteq> 0" "second_load_ok lc"
  shows "\<exists>R1 R2. solve_reactions L lc = Inr (R1, R2)"
proof (cases lc)
  case (Point_Load P a P2 a2)
  with assms solve_reactions_point [of L a2 P2 P a] show ?thesis by auto
next
  case (UDL w)
  then show ?thesis using solve_reactions_udl [of L w] by blast
qed

lemma cumtrapz_total:
  assumes "length ys = length xs" "xs \<noteq> []"
  shows "\<exists>zs. cumtrapz ys xs = Inr zs \<and> length zs = length xs"
proof -
  from assms have "cumtrapz ys xs = Inr (0 # cumsum_from 0 (trapz_steps ys xs))"
    by (rule cumtrapz_Inr)
  with cumtrapz_length [OF assms this] show ?thesis by simp
qed

lemma build_profile_point:
  assumes "a2 \<noteq> None \<or> P2 = 0" "xs \<noteq> []"
  shows "\<exists>V M. build_profile (Point_Load P a P2 a2) R1 xs = Inr (V, M) \<and>
           length V = length xs \<and> length M = length xs \<and> cumtrapz V xs = Inr M \<and>
           (\<forall>i<length xs. V ! i = R1 - loads_up_to (xs ! i) (point_loads (Point_Load P a P2 a2)))"
proof -
  from shear_point_Inr [OF assms(1), of P a R1 xs] obtain V where
    V: "shear_point P a P2 a2 R1 xs = Inr V" "length V = length xs"
      "\<forall>i<length xs. V ! i = R1 - loads_up_to (xs ! i) (point_loads (Point_Load P a P2 a2))"
    by blast
  from cumtrapz_total [OF V(2) assms(2)] obtain M where
    M: "cumtrapz V xs = Inr M" "length M = length xs" by blast
  from V M show ?thesis by (simp add: build_profile_def)
qed

lemma build_profile_udl:
  assumes "xs \<noteq> []"
  shows "\<exists>V M. build_profile (UDL w) R1 xs = Inr (V, M) \<and>
           length V = length xs \<and> length M = length xs \<and> cumtrapz V xs = Inr M \<and>
           (\<forall>i<length xs. V ! i = R1 - w * xs ! i)"
proof -
  have len: "length (shear_udl w R1 xs) = length xs" by (simp add: shear_udl_def)
  from cumtrapz_total [OF len assms] obtain M where
    M: "cumtrapz (shear_udl w R1 xs) xs = Inr M" "length M = length xs" by blast
  then show ?thesis by (simp add: build_profile_def Let_def shear_udl_def)
qed

lemma build_profile_Inr:
  assumes "second_load_ok lc" "xs \<noteq> []"
  shows "\<exists>V M. build_profile lc R1 xs = Inr (V, M) \<and>
           length V = length xs \<and> length M = length xs \<and> cumtrapz V xs = Inr M"
proof (cases lc)
  case (Point_Load P a P2 a2)
  with assms build_profile_point [of a2 P2 xs P a R1] show ?thesis by auto
next
  case (UDL w)
  with assms build_profile_udl [of xs w R1] show ?thesis by auto
qed

lemma solve_deflection_Inr:
  assumes "L \<noteq> 0" "E * I \<noteq> 0" "length M = length xs" "xs \<noteq> []"
  shows "\<exists>slope y0. cumtrapz (map (\<lambda>m. m / (E * I)) M) xs = Inr slope \<and>
           cumtrapz slope xs = Inr y0 \<and> length slope = length xs \<and> length y0 = length xs \<and>
           solve_deflection L E I xs M = Inr (map2 (\<lambda>v x. v + (- last y0 / L) * x) y0 xs)"
proof -
  have "length (map (\<lambda>m. m / (E * I)) M) = length xs" using assms(3) by simp
  from cumtrapz_total [OF this assms(4)] obtain slope where
    s: "cumtrapz (map (\<lambda>m. m / (E * I)) M) xs = Inr slope" "length slope = length xs" by blast
  from cumtrapz_total [OF s(2) assms(4)] obtain y0 where
    y: "cumtrapz slope xs = Inr y0" "length y0 = length xs" by blast
  from y(2) assms(4) have "y0 \<noteq> []" by auto
  with s y assms(1,2) show ?thesis by (simp add: solve_deflection_def Let_def)
qed

lemma extrema_Inr:
  assumes "y \<noteq> []"
  shows "max_deflection y = Inr (if Min (set y) < 0 then Min (set y) else Max (set y))"
    and "max_deflection_abs y = Inr (Max (set (map abs y)))"
    and "\<exists>k. imax y = Inr k \<and> k < length y \<and> \<bar>y ! k\<bar> = Max (set (map abs y)) \<and>
             (\<forall>j<k. \<bar>y ! j\<bar> < \<bar>y ! k\<bar>)"
proof -
  from assms show "max_deflection y = Inr (if Min (set y) < 0 then Min (set y) else Max (set y))"
    by (simp add: max_deflection_def np_min_Min np_max_Max)
  from assms have ne: "map abs y \<noteq> []" by simp
  from ne show "max_deflection_abs y = Inr (Max (set (map abs y)))"
    unfolding max_deflection_abs_def by (rule np_max_Max)
  from np_argmax_first [OF ne] obtain k where
    k: "np_argmax (map abs y) = Inr k" "k < length (map abs y)"
      "map abs y ! k = Max (set (map abs y))" "\<forall>j<k. map abs y ! j < map abs y ! k"
    by blast
  then show "\<exists>k. imax y = Inr k \<and> k < length y \<and> \<bar>y ! k\<bar> = Max (set (map abs y)) \<and>
             (\<forall>j<k. \<bar>y ! j\<bar> < \<bar>y ! k\<bar>)"
    by (auto simp: imax_def)
qed

lemma valid_run_facts:
  assumes "valid_run c"
  shows "cfg_L c > 0" "cfg_E c * cfg_I c \<noteq> 0" "2 \<le> cfg_npts c" "second_load_ok (cfg_load c)"
    "linspace 0 (cfg_L c) (cfg_npts c) \<noteq> []"
proof -
  from assms show L: "cfg_L c > 0" and N: "2 \<le> cfg_npts c" and "second_load_ok (cfg_load c)"
    by (simp_all add: valid_run_def InvalidParameter_def not_le not_less)
  from assms have "cfg_E c > 0" "cfg_I c > 0"
    by (simp_all add: valid_run_def InvalidParameter_def not_le)
  then show "cfg_E c * cfg_I c \<noteq> 0" by simp
  from N have "length (linspace 0 (cfg_L c) (cfg_npts c)) \<noteq> 0" by (simp add: length_linspace)
  then show "linspace 0 (cfg_L c) (cfg_npts c) \<noteq> []" by simp
qed

lemma analyze_Inr:
  assumes "valid_run c"
  obtains R1 R2 V M y md mda im where
    "solve_reactions (cfg_L c) (cfg_load c) = Inr (R1, R2)"
    "build_profile (cfg_load c) R1 (linspace 0 (cfg_L c) (cfg_npts c)) = Inr (V, M)"
    "solve_deflection (cfg_L c) (cfg_E c) (cfg_I c) (linspace 0 (cfg_L c) (cfg_npts c)) M = Inr y"
    "max_deflection y = Inr md" "max_deflection_abs y = Inr mda" "imax y = Inr im"
    "length V = cfg_npts c" "length M = cfg_npts c" "length y = cfg_npts c"
    "analyze c = Inr \<lparr> res_x = linspace 0 (cfg_L c) (cfg_npts c), res_R1 = R1, res_R2 = R2,
        res_V = V, res_M = M, res_y = y, res_max_deflection = md,
        res_max_deflection_abs = mda, res_imax = im \<rparr>"
proof -
  let ?xs = "linspace 0 (cfg_L c) (cfg_npts c)"
  note f = valid_run_facts [OF assms]
  from f(1) have L: "cfg_L c \<noteq> 0" by simp
  from solve_reactions_Inr [OF L f(4)] obtain R1 R2 where
    R: "solve_reactions (cfg_L c) (cfg_load c) = Inr (R1, R2)" by blast
  from build_profile_Inr [OF f(4) f(5), of R1] obtain V M where
    VM: "build_profile (cfg_load c) R1 ?xs = Inr (V, M)" "length V = length ?xs"
      "length M = length ?xs" by blast
  from solve_deflection_Inr [OF L f(2) VM(3) f(5)] obtain y where
    y: "solve_deflection (cfg_L c) (cfg_E c) (cfg_I c) ?xs M = Inr y" "length y = length ?xs"
    by auto
  from y(2) f(5) have ne: "y \<noteq> []" by auto
  from extrema_Inr [OF ne] obtain md mda im where
    e: "max_deflection y = Inr md" "max_deflection_abs y = Inr mda" "imax y = Inr im"
    by blast
  have "analyze c = Inr \<lparr> res_x = ?xs, res_R1 = R1, res_R2 = R2,
        res_V = V, res_M = M, res_y = y, res_max_deflection = md,
        res_max_deflection_abs = mda, res_imax = im \<rparr>"
    using R VM(1) y(1) e by (simp add: analyze_def Let_def)
  with R VM y e that show thesis by (simp add: length_linspace)
qed

lemma valid_scenario_A: "valid_run scenario_A"
  by (simp add: scenario_A_def valid_run_def InvalidParameter_def)

lemma valid_scenario_B: "valid_run scenario_B"
  by (simp add: scenario_B_def valid_run_def InvalidParameter_def)

lemma valid_scenario_C: "valid_run scenario_C"
  by (simp add: scenario_C_def valid_run_def InvalidParameter_def)

lemma solve_deflection_zero:
  assumes "L \<noteq> 0" "E * I \<noteq> 0" "length M = length xs" "xs \<noteq> []"
    "\<And>k. k < length xs \<Longrightarrow> M ! k = 0"
    "solve_deflection L E I xs M = Inr y" "i < length xs"
  shows "y ! i = 0"
proof -
  let ?kappa = "map (\<lambda>m. m / (E * I)) M"
  from solve_deflection_Inr [OF assms(1-4)] assms(6) obtain slope y0 where
    d: "cumtrapz ?kappa xs = Inr slope" "cumtrapz slope xs = Inr y0"
      "length slope = length xs" "length y0 = length xs"
      "y = map2 (\<lambda>v x. v + (- last y0 / L) * x) y0 xs"
    by auto
  have k: "length ?kappa = length xs" using assms(3) by simp
  have kz: "?kappa ! k = 0" if "k < length xs" for k
    using that assms(3) assms(5) [OF that] by simp
  have sz: "slope ! k = 0" if "k < length xs" for k
    using k d(1) kz that by (rule cumtrapz_zero)
  have yz: "y0 ! k = 0" if "k < length xs" for k
    using d(3) d(2) sz that by (rule cumtrapz_zero)
  from d(4) assms(4) have ne: "y0 \<noteq> []" by auto
  from assms(4) have "length xs - 1 < length xs" by (cases xs) simp_all
  from yz [OF this] last_conv_nth [OF ne] d(4) have "last y0 = 0" by simp
  with yz [OF assms(7)] assms(7) d(4) show ?thesis by (simp add: d(5))
qed

lemma read_sidebar_second_load:
  "cfg_load (read_sidebar s) = Point_Load P a P2 a2 \<Longrightarrow> a2 = None \<longrightarrow> P2 = 0"
  by (auto simp: read_sidebar_def split: sidebar_load.splits option.splits)








section \<open>The claims\<close>

text \<open>
  Claim C1. For every valid configuration (any load case, any sample count \<open>N \<ge> 2\<close>)
  the run returns, and its deflection sequence has \<open>N\<close> entries whose first and last
  are zero. It is obtained as \<open>y ! i = y0 ! i + C1 * x ! i\<close> with
  \<open>C1 = - y0 ! (N - 1) / L\<close>, where \<open>y0\<close> is the script's \<open>y_unnormalized\<close>: the
  cumulative trapezoid of \<open>slope\<close>, itself the cumulative trapezoid of \<open>M / (E * I)\<close>,
  over the samples \<open>x = linspace 0 L N\<close>. Arithmetic is exact (over the reals).
\<close>

theorem C1_deflection_zero_at_both_ends:
  assumes "valid_run c"
  shows "\<exists>r. analyze c = Inr r \<and> length (res_y r) = cfg_npts c \<and>
           res_y r ! 0 = 0 \<and> res_y r ! (cfg_npts c - 1) = 0 \<and>
           res_x r = linspace 0 (cfg_L c) (cfg_npts c) \<and>
           (\<exists>slope y0.
              cumtrapz (map (\<lambda>m. m / (cfg_E c * cfg_I c)) (res_M r)) (res_x r) = Inr slope \<and>
              cumtrapz slope (res_x r) = Inr y0 \<and>
              length y0 = cfg_npts c \<and> y0 ! 0 = 0 \<and>
              (\<forall>i<cfg_npts c. res_y r ! i =
                   y0 ! i + (- (y0 ! (cfg_npts c - 1)) / cfg_L c) * res_x r ! i))"
proof (rule analyze_Inr [OF assms])
  let ?N = "cfg_npts c" and ?L = "cfg_L c"
  let ?xs = "linspace 0 ?L ?N"
  fix R1 R2 V M y md mda im
  assume a: "solve_deflection ?L (cfg_E c) (cfg_I c) ?xs M = Inr y" "length M = ?N"
  assume run: "analyze c = Inr \<lparr> res_x = ?xs, res_R1 = R1, res_R2 = R2,
        res_V = V, res_M = M, res_y = y, res_max_deflection = md,
        res_max_deflection_abs = mda, res_imax = im \<rparr>"
  note f = valid_run_facts [OF assms]
  from f have L: "?L \<noteq> 0" and N: "0 < ?N" "?N - 1 < ?N" by simp_all
  from a(2) have lenM: "length M = length ?xs" by (simp add: length_linspace)
  from solve_deflection_Inr [OF L f(2) lenM f(5)] obtain slope y0 where
    d: "cumtrapz (map (\<lambda>m. m / (cfg_E c * cfg_I c)) M) ?xs = Inr slope"
      "cumtrapz slope ?xs = Inr y0" "length slope = length ?xs" "length y0 = length ?xs"
      "solve_deflection ?L (cfg_E c) (cfg_I c) ?xs M =
         Inr (map2 (\<lambda>v x. v + (- last y0 / ?L) * x) y0 ?xs)"
    by blast
  from d(5) a(1) have y: "y = map2 (\<lambda>v x. v + (- last y0 / ?L) * x) y0 ?xs" by simp
  from d(4) have len0: "length y0 = ?N" by (simp add: length_linspace)
  with N have "y0 \<noteq> []" by auto
  from last_conv_nth [OF this] len0 have last: "last y0 = y0 ! (?N - 1)" by simp
  have y0: "y0 ! 0 = 0" by (rule cumtrapz_first [OF d(3) f(5) d(2)])
  have nth: "y ! i = y0 ! i + (- (y0 ! (?N - 1)) / ?L) * ?xs ! i" if "i < ?N" for i
    using that len0 by (simp add: y last length_linspace)
  have x0: "?xs ! 0 = 0" using f(3) by (rule linspace_first)
  have xl: "?xs ! (?N - 1) = ?L" using f(3) by (rule linspace_last)
  have e0: "y ! 0 = 0" using nth [OF N(1)] y0 x0 by simp
  have eN: "y ! (?N - 1) = 0" using nth [OF N(2)] xl L by simp
  have leny: "length y = ?N" using len0 by (simp add: y length_linspace)
  have inner: "\<exists>slope y0.
      cumtrapz (map (\<lambda>m. m / (cfg_E c * cfg_I c)) M) ?xs = Inr slope \<and>
      cumtrapz slope ?xs = Inr y0 \<and> length y0 = ?N \<and> y0 ! 0 = 0 \<and>
      (\<forall>i<?N. y ! i = y0 ! i + (- (y0 ! (?N - 1)) / ?L) * ?xs ! i)"
    using d(1,2) len0 y0 nth by blast
  show ?thesis
    unfolding run using leny e0 eN inner by simp
qed

theorem C1_witness:
  "valid_run scenario_A \<and>
   (\<exists>r. analyze scenario_A = Inr r \<and> length (res_y r) = 5 \<and> res_y r ! 0 = 0 \<and>
      res_y r ! 4 = 0 \<and> res_x r = linspace 0 6 5 \<and>
      (\<exists>slope y0.
         cumtrapz (map (\<lambda>m. m / (cfg_E scenario_A * cfg_I scenario_A)) (res_M r)) (res_x r)
           = Inr slope \<and>
         cumtrapz slope (res_x r) = Inr y0 \<and> length y0 = 5 \<and> y0 ! 0 = 0 \<and>
         (\<forall>i<5. res_y r ! i = y0 ! i + (- (y0 ! 4) / 6) * res_x r ! i)))"
proof -
  have n: "cfg_npts scenario_A = 5" and l: "cfg_L scenario_A = 6"
    by (simp_all add: scenario_A_def)
  have "(5::nat) - 1 = 4" by simp
  with C1_deflection_zero_at_both_ends [OF valid_scenario_A, unfolded n l]
  have "\<exists>r. analyze scenario_A = Inr r \<and> length (res_y r) = 5 \<and> res_y r ! 0 = 0 \<and>
      res_y r ! 4 = 0 \<and> res_x r = linspace 0 6 5 \<and>
      (\<exists>slope y0.
         cumtrapz (map (\<lambda>m. m / (cfg_E scenario_A * cfg_I scenario_A)) (res_M r)) (res_x r)
           = Inr slope \<and>
         cumtrapz slope (res_x r) = Inr y0 \<and> length y0 = 5 \<and> y0 ! 0 = 0 \<and>
         (\<forall>i<5. res_y r ! i = y0 ! i + (- (y0 ! 4) / 6) * res_x r ! i))"
    by (simp only:)
  with valid_scenario_A show ?thesis ..
qed

text \<open>
  Claim C2. With point loads \<open>P\<close> at \<open>a\<close> and \<open>P2\<close> at \<open>a2\<close> (or \<open>P2 = 0\<close>, when
  the second position plays no role) and \<open>L \<noteq> 0\<close>, the reactions are
  \<open>R2 = (P * a + P2 * a2) / L\<close> and \<open>R1 = (P + P2) - R2\<close>; so \<open>R1 + R2\<close> is the total
  load and \<open>R2 * L\<close> balances the moments of the loads about the left support.
\<close>

theorem C2_point_load_reactions:
  assumes "L \<noteq> 0" "P2 = 0 \<or> a2 = Some a2v"
  shows "\<exists>R1 R2. solve_reactions L (Point_Load P a P2 a2) = Inr (R1, R2) \<and>
           R2 = (P * a + P2 * a2v) / L \<and> R1 = (P + P2) - R2 \<and>
           R1 + R2 = P + P2 \<and> R2 * L = P * a + P2 * a2v"
proof -
  from assms(2) have ok: "a2 \<noteq> None \<or> P2 = 0" by auto
  from assms(2) have "P2 * (case a2 of None \<Rightarrow> 0 | Some v \<Rightarrow> v) = P2 * a2v" by auto
  with solve_reactions_point [OF assms(1) ok, of P a] assms(1) show ?thesis by simp
qed

theorem C2_witness:
  "(6::real) \<noteq> 0 \<and> ((5000::real) = 0 \<or> Some (4::real) = Some 4) \<and>
   solve_reactions 6 (Point_Load 10000 3 5000 (Some 4)) = Inr (20000 / 3, 25000 / 3)"
  using C2_point_load_reactions [of 6 5000 "Some 4" 4 10000 3] by auto




text \<open>
  Claim C4. In the point-load case the shear at every sample \<open>x ! i\<close> is \<open>R1\<close> minus the
  sum of the point loads whose position is at most \<open>x ! i\<close>: a sample exactly at a load
  position already carries that load.
\<close>

theorem C4_point_load_shear:
  assumes "valid_run c" "cfg_load c = Point_Load P a P2 a2"
  shows "\<exists>r. analyze c = Inr r \<and> length (res_V r) = cfg_npts c \<and>
           (\<forall>i<cfg_npts c. res_V r ! i =
                res_R1 r - loads_up_to (res_x r ! i) (point_loads (cfg_load c)))"
proof (rule analyze_Inr [OF assms(1)])
  let ?xs = "linspace 0 (cfg_L c) (cfg_npts c)"
  fix R1 R2 V M y md mda im
  assume b: "build_profile (cfg_load c) R1 ?xs = Inr (V, M)"
  assume run: "analyze c = Inr \<lparr> res_x = ?xs, res_R1 = R1, res_R2 = R2,
        res_V = V, res_M = M, res_y = y, res_max_deflection = md,
        res_max_deflection_abs = mda, res_imax = im \<rparr>"
  note f = valid_run_facts [OF assms(1)]
  from f(4) assms(2) have ok: "a2 \<noteq> None \<or> P2 = 0" by simp
  from build_profile_point [OF ok f(5), of P a R1] b assms(2)
  have "length V = length ?xs \<and>
    (\<forall>i<length ?xs. V ! i = R1 - loads_up_to (?xs ! i) (point_loads (Point_Load P a P2 a2)))"
    by auto
  then show ?thesis
    unfolding run by (simp add: assms(2) length_linspace)
qed

theorem C4_witness:
  "valid_run scenario_A \<and> cfg_load scenario_A = Point_Load 10000 3 0 None \<and>
   (\<exists>r. analyze scenario_A = Inr r \<and> length (res_V r) = 5 \<and>
      res_V r ! 2 = res_R1 r - loads_up_to (res_x r ! 2) [(10000, 3)])"
proof -
  have l: "cfg_load scenario_A = Point_Load 10000 3 0 None" and n: "cfg_npts scenario_A = 5"
    by (simp_all add: scenario_A_def)
  from C4_point_load_shear [OF valid_scenario_A l] obtain r where
    r: "analyze scenario_A = Inr r" "length (res_V r) = cfg_npts scenario_A"
      "\<forall>i<cfg_npts scenario_A. res_V r ! i =
          res_R1 r - loads_up_to (res_x r ! i) (point_loads (cfg_load scenario_A))"
    by blast
  from n have "2 < cfg_npts scenario_A" by simp
  with r(3) have "res_V r ! 2 =
      res_R1 r - loads_up_to (res_x r ! 2) (point_loads (cfg_load scenario_A))"
    by blast
  with r(1,2) valid_scenario_A l n show ?thesis by auto
qed

text \<open>
  Claim C5. For a distributed load \<open>w\<close> both reactions are \<open>w * L / 2\<close>, whatever the
  sample count; the shear is \<open>R1 - w * x ! i\<close> at every sample, and at the last sample
  it is \<open>- R2\<close>.
\<close>

theorem C5_udl_reactions_and_shear:
  assumes "valid_run c" "cfg_load c = UDL w"
  shows "\<exists>r. analyze c = Inr r \<and> res_R1 r = w * cfg_L c / 2 \<and> res_R2 r = w * cfg_L c / 2 \<and>
           length (res_V r) = cfg_npts c \<and>
           (\<forall>i<cfg_npts c. res_V r ! i = res_R1 r - w * res_x r ! i) \<and>
           res_V r ! (cfg_npts c - 1) = - res_R2 r"
proof (rule analyze_Inr [OF assms(1)])
  let ?xs = "linspace 0 (cfg_L c) (cfg_npts c)"
  fix R1 R2 V M y md mda im
  assume r: "solve_reactions (cfg_L c) (cfg_load c) = Inr (R1, R2)"
  assume b: "build_profile (cfg_load c) R1 ?xs = Inr (V, M)"
  assume run: "analyze c = Inr \<lparr> res_x = ?xs, res_R1 = R1, res_R2 = R2,
        res_V = V, res_M = M, res_y = y, res_max_deflection = md,
        res_max_deflection_abs = mda, res_imax = im \<rparr>"
  note f = valid_run_facts [OF assms(1)]
  from r assms(2) have R: "R1 = w * cfg_L c / 2" "R2 = w * cfg_L c / 2"
    by (simp_all add: solve_reactions_udl)
  from build_profile_udl [OF f(5), of w R1] b assms(2)
  have V: "length V = length ?xs" "\<forall>i<length ?xs. V ! i = R1 - w * ?xs ! i"
    by auto
  from f(3) have "cfg_npts c - 1 < length ?xs" by (simp add: length_linspace)
  with V(2) have "V ! (cfg_npts c - 1) = R1 - w * ?xs ! (cfg_npts c - 1)" by blast
  also have "\<dots> = - R2" using linspace_last [OF f(3), of 0 "cfg_L c"] R by simp
  finally have "V ! (cfg_npts c - 1) = - R2" .
  with R V show ?thesis
    unfolding run by (simp add: length_linspace)
qed

theorem C5_witness:
  "valid_run scenario_B \<and> cfg_load scenario_B = UDL 5000 \<and>
   (\<exists>r. analyze scenario_B = Inr r \<and> res_R1 r = 15000 \<and> res_R2 r = 15000 \<and>
      res_V r ! 4 = - 15000)"
proof -
  have l: "cfg_load scenario_B = UDL 5000" and n: "cfg_npts scenario_B = 5"
    and L: "cfg_L scenario_B = 6"
    by (simp_all add: scenario_B_def)
  from C5_udl_reactions_and_shear [OF valid_scenario_B l] valid_scenario_B l n L
  show ?thesis by auto
qed

text \<open>
  Claim C6. For every load case the moment sequence starts at zero and each entry adds
  one trapezoid of the shear:
  \<open>M ! i = M ! (i - 1) + (V ! (i - 1) + V ! i) / 2 * (x ! i - x ! (i - 1))\<close>.
\<close>

theorem C6_moment_is_cumulative_trapezoid:
  assumes "valid_run c"
  shows "\<exists>r. analyze c = Inr r \<and> length (res_M r) = cfg_npts c \<and> res_M r ! 0 = 0 \<and>
           (\<forall>i. 0 < i \<and> i < cfg_npts c \<longrightarrow>
              res_M r ! i = res_M r ! (i - 1) +
                (res_V r ! (i - 1) + res_V r ! i) / 2 * (res_x r ! i - res_x r ! (i - 1)))"
proof (rule analyze_Inr [OF assms(1)])
  let ?xs = "linspace 0 (cfg_L c) (cfg_npts c)"
  fix R1 R2 V M y md mda im
  assume b: "build_profile (cfg_load c) R1 ?xs = Inr (V, M)"
  assume run: "analyze c = Inr \<lparr> res_x = ?xs, res_R1 = R1, res_R2 = R2,
        res_V = V, res_M = M, res_y = y, res_max_deflection = md,
        res_max_deflection_abs = mda, res_imax = im \<rparr>"
  note f = valid_run_facts [OF assms(1)]
  from build_profile_Inr [OF f(4) f(5), of R1] b
  have V: "length V = length ?xs" and M: "length M = length ?xs" and c: "cumtrapz V ?xs = Inr M"
    by auto
  have first: "M ! 0 = 0" by (rule cumtrapz_first [OF V f(5) c])
  have step: "M ! i = M ! (i - 1) + (V ! (i - 1) + V ! i) / 2 * (?xs ! i - ?xs ! (i - 1))"
    if "0 < i \<and> i < cfg_npts c" for i
  proof -
    from that obtain k where i: "i = Suc k" by (cases i) auto
    with that have "Suc k < length ?xs" by (simp add: length_linspace)
    from cumtrapz_step [OF V this c]
    have "M ! Suc k = M ! k + (?xs ! Suc k - ?xs ! k) * (V ! Suc k + V ! k) / 2" .
    also have "\<dots> = M ! k + (V ! k + V ! Suc k) / 2 * (?xs ! Suc k - ?xs ! k)" by simp
    finally show ?thesis by (simp add: i)
  qed
  from M first step show ?thesis
    unfolding run by (simp add: length_linspace)
qed

theorem C6_witness:
  "valid_run scenario_B \<and>
   (\<exists>r. analyze scenario_B = Inr r \<and> length (res_M r) = 5 \<and> res_M r ! 0 = 0 \<and>
      res_M r ! 1 = res_M r ! 0 + (res_V r ! 0 + res_V r ! 1) / 2 * (res_x r ! 1 - res_x r ! 0))"
proof -
  have n: "cfg_npts scenario_B = 5" by (simp add: scenario_B_def)
  from C6_moment_is_cumulative_trapezoid [OF valid_scenario_B] obtain r where
    r: "analyze scenario_B = Inr r" "length (res_M r) = cfg_npts scenario_B" "res_M r ! 0 = 0"
      "\<forall>i. 0 < i \<and> i < cfg_npts scenario_B \<longrightarrow>
              res_M r ! i = res_M r ! (i - 1) +
                (res_V r ! (i - 1) + res_V r ! i) / 2 * (res_x r ! i - res_x r ! (i - 1))"
    by blast
  from r(4) n have "res_M r ! 1 = res_M r ! (1 - 1) +
                (res_V r ! (1 - 1) + res_V r ! 1) / 2 * (res_x r ! 1 - res_x r ! (1 - 1))"
    by (intro r(4) [rule_format]) simp
  with r n valid_scenario_B show ?thesis by auto
qed

text \<open>
  Claim C7. The reported extreme deflection is the minimum of \<open>y\<close> when that is
  negative and the maximum otherwise; the absolute maximum is the greatest \<open>\<bar>y ! i\<bar>\<close>;
  the reported index is the first one where \<open>\<bar>y ! i\<bar>\<close> reaches it, and the position
  shown is \<open>x\<close> at that index.
\<close>

theorem C7_extrema:
  assumes "valid_run c"
  shows "\<exists>r. analyze c = Inr r \<and>
     res_max_deflection r =
       (if Min (set (res_y r)) < 0 then Min (set (res_y r)) else Max (set (res_y r))) \<and>
     res_max_deflection_abs r = Max (set (map abs (res_y r))) \<and>
     length (res_x r) = length (res_y r) \<and> res_imax r < length (res_y r) \<and>
     \<bar>res_y r ! res_imax r\<bar> = res_max_deflection_abs r \<and>
     (\<forall>j<res_imax r. \<bar>res_y r ! j\<bar> < \<bar>res_y r ! res_imax r\<bar>)"
proof (rule analyze_Inr [OF assms(1)])
  let ?xs = "linspace 0 (cfg_L c) (cfg_npts c)"
  fix R1 R2 V M y md mda im
  assume e: "max_deflection y = Inr md" "max_deflection_abs y = Inr mda" "imax y = Inr im"
    and len: "length y = cfg_npts c"
  assume run: "analyze c = Inr \<lparr> res_x = ?xs, res_R1 = R1, res_R2 = R2,
        res_V = V, res_M = M, res_y = y, res_max_deflection = md,
        res_max_deflection_abs = mda, res_imax = im \<rparr>"
  note f = valid_run_facts [OF assms(1)]
  from len f(3) have ne: "y \<noteq> []" by auto
  from extrema_Inr(1) [OF ne] e(1)
  have md: "md = (if Min (set y) < 0 then Min (set y) else Max (set y))" by simp
  from extrema_Inr(2) [OF ne] e(2) have mda: "mda = Max (set (map abs y))" by simp
  from extrema_Inr(3) [OF ne] e(3)
  have im: "im < length y" "\<bar>y ! im\<bar> = Max (set (map abs y))" "\<forall>j<im. \<bar>y ! j\<bar> < \<bar>y ! im\<bar>"
    by auto
  from md mda im len show ?thesis
    unfolding run by (simp add: length_linspace)
qed

theorem C7_witness:
  "valid_run scenario_A \<and>
   (\<exists>r. analyze scenario_A = Inr r \<and>
      res_max_deflection_abs r = Max (set (map abs (res_y r))) \<and>
      res_imax r < length (res_y r) \<and>
      \<bar>res_y r ! res_imax r\<bar> = res_max_deflection_abs r)"
  using C7_extrema [OF valid_scenario_A] valid_scenario_A by blast

text \<open>
  Claim C8. A single point load at the left support (\<open>a = 0\<close>, \<open>P2 = 0\<close>) gives
  \<open>R1 = P\<close>, \<open>R2 = 0\<close>, and moment and deflection sequences that are zero at every
  sample.
\<close>

theorem C8_load_at_left_support:
  assumes "valid_run c" "cfg_load c = Point_Load P 0 0 a2"
  shows "\<exists>r. analyze c = Inr r \<and> res_R1 r = P \<and> res_R2 r = 0 \<and>
     length (res_M r) = cfg_npts c \<and> length (res_y r) = cfg_npts c \<and>
     (\<forall>i<cfg_npts c. res_M r ! i = 0) \<and> (\<forall>i<cfg_npts c. res_y r ! i = 0)"
proof (rule analyze_Inr [OF assms(1)])
  let ?xs = "linspace 0 (cfg_L c) (cfg_npts c)"
  fix R1 R2 V M y md mda im
  assume r: "solve_reactions (cfg_L c) (cfg_load c) = Inr (R1, R2)"
  assume b: "build_profile (cfg_load c) R1 ?xs = Inr (V, M)"
  assume s: "solve_deflection (cfg_L c) (cfg_E c) (cfg_I c) ?xs M = Inr y"
  assume len: "length M = cfg_npts c" "length y = cfg_npts c"
  assume run: "analyze c = Inr \<lparr> res_x = ?xs, res_R1 = R1, res_R2 = R2,
        res_V = V, res_M = M, res_y = y, res_max_deflection = md,
        res_max_deflection_abs = mda, res_imax = im \<rparr>"
  note f = valid_run_facts [OF assms(1)]
  from f(1) have L: "cfg_L c \<noteq> 0" "0 \<le> cfg_L c" by simp_all
  have ok: "a2 \<noteq> None \<or> (0::real) = 0" by simp
  from solve_reactions_point [OF L(1) ok, of P 0] r assms(2) have R: "R1 = P" "R2 = 0"
    by simp_all
  from build_profile_point [OF ok f(5), of P 0 R1] b assms(2)
  have V: "length V = length ?xs" and c: "cumtrapz V ?xs = Inr M"
    and Vn: "\<forall>i<length ?xs. V ! i = R1 - loads_up_to (?xs ! i) (point_loads (Point_Load P 0 0 a2))"
    by auto
  have Vz: "V ! k = 0" if "k < length ?xs" for k
  proof -
    from that have "0 \<le> ?xs ! k" by (intro linspace_nonneg L(2)) (simp add: length_linspace)
    then have "loads_up_to (?xs ! k) (point_loads (Point_Load P 0 0 a2)) = P"
      by (cases a2) (simp_all add: loads_up_to_def)
    with Vn that R show ?thesis by simp
  qed
  have Mz: "M ! k = 0" if "k < length ?xs" for k
    using V c Vz that by (rule cumtrapz_zero)
  from len have lenM: "length M = length ?xs" by (simp add: length_linspace)
  have yz: "y ! k = 0" if "k < length ?xs" for k
    using L(1) f(2) lenM f(5) Mz s that by (rule solve_deflection_zero)
  from R len Mz yz show ?thesis
    unfolding run by (simp add: length_linspace)
qed

theorem C8_witness:
  "valid_run scenario_C \<and> cfg_load scenario_C = Point_Load 10000 0 0 None \<and>
   (\<exists>r. analyze scenario_C = Inr r \<and> res_R1 r = 10000 \<and> res_R2 r = 0 \<and>
      length (res_M r) = 5 \<and> length (res_y r) = 5 \<and>
      res_M r ! 2 = 0 \<and> res_y r ! 2 = 0)"
proof -
  have l: "cfg_load scenario_C = Point_Load 10000 0 0 None" and n: "cfg_npts scenario_C = 5"
    by (simp_all add: scenario_C_def)
  from C8_load_at_left_support [OF valid_scenario_C l] n valid_scenario_C l
  show ?thesis by auto
qed

text \<open>
  Claim C9. The single-load formula of the \<open>else\<close> branch returns what the
  moment-balance branch returns for \<open>P2 = 0\<close> (in exact arithmetic, and the same
  \<open>ZeroDivisionError\<close> for \<open>L = 0\<close>). Whenever \<open>a2\<close> is \<open>None\<close> only together with
  \<open>P2 = 0\<close> the branch condition holds and the reactions come from the moment balance;
  every configuration read from the sidebar is of that kind, so the \<open>else\<close> branch is
  never run.
\<close>

theorem C9_else_branch_never_taken:
  "single_load_formula P a L = moment_balance P a 0 a2' L \<and>
   ((a2 = None \<longrightarrow> P2 = 0) \<longrightarrow>
      branch_cond P2 a2 \<and>
      solve_reactions L (Point_Load P a P2 a2) = moment_balance P a P2 a2 L) \<and>
   (cfg_load (read_sidebar s) = Point_Load Q b Q2 b2 \<longrightarrow>
      (b2 = None \<longrightarrow> Q2 = 0) \<and> branch_cond Q2 b2)"
proof -
  have 1: "single_load_formula P a L = moment_balance P a 0 a2' L"
    by (simp add: single_load_formula_def moment_balance_def Let_def diff_divide_distrib
        right_diff_distrib)
  have 2: "branch_cond P2 a2 \<and>
      solve_reactions L (Point_Load P a P2 a2) = moment_balance P a P2 a2 L"
    if "a2 = None \<longrightarrow> P2 = 0"
  proof -
    from that have "branch_cond P2 a2" by (auto simp: branch_cond_def)
    then show ?thesis by (simp add: solve_reactions_def)
  qed
  have 3: "(b2 = None \<longrightarrow> Q2 = 0) \<and> branch_cond Q2 b2"
    if "cfg_load (read_sidebar s) = Point_Load Q b Q2 b2"
  proof -
    from that have "b2 = None \<longrightarrow> Q2 = 0" by (rule read_sidebar_second_load)
    then show ?thesis by (auto simp: branch_cond_def)
  qed
  from 1 2 3 show ?thesis by blast
qed

theorem C9_witness:
  "single_load_formula 10000 3 6 = moment_balance 10000 3 0 (Some 4) 6 \<and>
   branch_cond 0 None \<and>
   solve_reactions 6 (Point_Load 10000 3 0 None) = moment_balance 10000 3 0 None 6 \<and>
   cfg_load (read_sidebar sidebar_default) = Point_Load 10000 3 0 None"
proof -
  have l: "cfg_load (read_sidebar sidebar_default) = Point_Load 10000 3 0 None"
    by (simp add: read_sidebar_def sidebar_default_def)
  from C9_else_branch_never_taken [of 10000 3 6 "Some 4" None 0 sidebar_default 10000 3 0 None] l
  show ?thesis by simp
qed

text \<open>
  Claim C10. For a distributed load the shear is affine in \<open>x\<close>, so the cumulative
  trapezoidal rule is exact: \<open>M ! i = R1 * x ! i - w * (x ! i)\<^sup>2 / 2\<close> at every sample,
  for every sample count \<open>N \<ge> 2\<close> (in exact arithmetic).
\<close>

theorem C10_udl_moment_exact:
  assumes "valid_run c" "cfg_load c = UDL w"
  shows "\<exists>r. analyze c = Inr r \<and> length (res_M r) = cfg_npts c \<and>
     (\<forall>i<cfg_npts c. res_M r ! i = res_R1 r * res_x r ! i - w * (res_x r ! i)\<^sup>2 / 2)"
proof (rule analyze_Inr [OF assms(1)])
  let ?xs = "linspace 0 (cfg_L c) (cfg_npts c)"
  fix R1 R2 V M y md mda im
  assume b: "build_profile (cfg_load c) R1 ?xs = Inr (V, M)"
  assume len: "length M = cfg_npts c"
  assume run: "analyze c = Inr \<lparr> res_x = ?xs, res_R1 = R1, res_R2 = R2,
        res_V = V, res_M = M, res_y = y, res_max_deflection = md,
        res_max_deflection_abs = mda, res_imax = im \<rparr>"
  note f = valid_run_facts [OF assms(1)]
  from build_profile_udl [OF f(5), of w R1] b assms(2)
  have V: "length V = length ?xs" and c: "cumtrapz V ?xs = Inr M"
    and Vn: "\<And>k. k < length ?xs \<Longrightarrow> V ! k = R1 - w * ?xs ! k"
    by auto
  have x0: "?xs ! 0 = 0" using f(3) by (rule linspace_first)
  have "M ! i = R1 * ?xs ! i - w * (?xs ! i)\<^sup>2 / 2" if "i < cfg_npts c" for i
  proof -
    from that have i: "i < length ?xs" by (simp add: length_linspace)
    from cumtrapz_affine [OF V c Vn i] x0 show ?thesis by simp
  qed
  with len show ?thesis
    unfolding run by simp
qed

theorem C10_witness:
  "valid_run scenario_B \<and> cfg_load scenario_B = UDL 5000 \<and>
   (\<exists>r. analyze scenario_B = Inr r \<and> length (res_M r) = 5 \<and>
      res_M r ! 2 = res_R1 r * res_x r ! 2 - 5000 * (res_x r ! 2)\<^sup>2 / 2)"
proof -
  have l: "cfg_load scenario_B = UDL 5000" and n: "cfg_npts scenario_B = 5"
    by (simp_all add: scenario_B_def)
  from C10_udl_moment_exact [OF valid_scenario_B l] n valid_scenario_B l
  show ?thesis by auto
qed

end
